theory Spec2Isabelle
  imports Main "HOL-Library.AList"
begin

section \<open>Go maps, loops and failures\<close>

text \<open>
  A Go \<^verbatim>\<open>map[K]V\<close> is an association list with one entry per key. \<^verbatim>\<open>m[k]\<close> is
  \<^term>\<open>map_of m k\<close>, \<^verbatim>\<open>m[k] = v\<close> is \<^term>\<open>AList.update k v m\<close>, \<^verbatim>\<open>delete(m, k)\<close> is
  \<open>go_delete\<close> below and \<^verbatim>\<open>len(m)\<close> is \<^term>\<open>length m\<close>. A \<^verbatim>\<open>range\<close> loop visits the
  entries in list order. Go leaves that order unspecified: the theorems below speak about
  a set through its mapping and its length, not through the order of its list, and they
  hold for every list.

  A failed type assertion \<^verbatim>\<open>other.(*T)\<close> panics; it is the value \<open>Inl TypeMismatch\<close>.
\<close>

datatype error = TypeMismatch

text \<open>The loop \<^verbatim>\<open>for _, x := range xs { if !p(x) { return false } }; return true\<close>.\<close>

fun range_all :: "('a \<Rightarrow> bool) \<Rightarrow> 'a list \<Rightarrow> bool" where
  "range_all p [] = True"
| "range_all p (x # xs) = (if \<not> p x then False else range_all p xs)"

text \<open>
  \<^verbatim>\<open>delete(m, k)\<close> removes the entry whose key is \<^verbatim>\<open>==\<close> to \<open>k\<close>. Go's \<^verbatim>\<open>==\<close> is not
  reflexive on every comparable type: a \<^verbatim>\<open>float64\<close> NaN, or a key that contains one, is
  not equal to itself, and \<^verbatim>\<open>delete\<close> with such a key finds no entry and removes
  nothing. \<open>eqSelf k\<close> is the test \<^verbatim>\<open>k == k\<close> of the key type. On a map that holds
  no such key, \<^verbatim>\<open>m[k]\<close> and \<^verbatim>\<open>m[k] = v\<close> are \<^term>\<open>map_of m k\<close> and
  \<^term>\<open>AList.update k v m\<close> for every \<open>k\<close>: a lookup with a key that is not equal to
  itself finds nothing and a store with it adds an entry.
\<close>

definition go_delete :: "('k \<Rightarrow> bool) \<Rightarrow> 'k \<Rightarrow> ('k \<times> 'v) list \<Rightarrow> ('k \<times> 'v) list" where
  "go_delete eqSelf k m = (if eqSelf k then AList.delete k m else m)"

section \<open>unsafeSimpleSet: \<^verbatim>\<open>map[T]struct{}\<close>\<close>

type_synonym 't unsafeSimpleSet = "('t \<times> unit) list"

definition newUnsafeSimpleSet :: "'t unsafeSimpleSet" where
  "newUnsafeSimpleSet = []"

definition simple_add :: "'t unsafeSimpleSet \<Rightarrow> 't list \<Rightarrow> 't unsafeSimpleSet" where
  "simple_add s v = fold (\<lambda>val m. AList.update val () m) v s"

definition simple_Len :: "'t unsafeSimpleSet \<Rightarrow> nat" where
  "simple_Len s = length s"

definition simple_Add :: "'t unsafeSimpleSet \<Rightarrow> 't list \<Rightarrow> 't unsafeSimpleSet \<times> bool" where
  "simple_Add s v =
     (let prevLen = simple_Len s;
          s' = simple_add s v
      in (s', prevLen \<noteq> simple_Len s'))"

definition simple_Clone :: "'t unsafeSimpleSet \<Rightarrow> 't unsafeSimpleSet" where
  "simple_Clone s = fold (\<lambda>elem clone. simple_add clone [elem]) (map fst s) []"

definition simple_contains :: "'t unsafeSimpleSet \<Rightarrow> 't \<Rightarrow> bool" where
  "simple_contains s v = (case map_of s v of None \<Rightarrow> False | Some _ \<Rightarrow> True)"

definition simple_Contains :: "'t unsafeSimpleSet \<Rightarrow> 't list \<Rightarrow> bool" where
  "simple_Contains s v = range_all (\<lambda>val. simple_contains s val) v"

definition simple_Diff :: "'t unsafeSimpleSet \<Rightarrow> 't unsafeSimpleSet \<Rightarrow> 't unsafeSimpleSet" where
  "simple_Diff s other =
     fold (\<lambda>elem diff. if \<not> simple_contains other elem then fst (simple_Add diff [elem]) else diff)
       (map fst s) newUnsafeSimpleSet"

definition simple_SymmetricDiff ::
  "'t unsafeSimpleSet \<Rightarrow> 't unsafeSimpleSet \<Rightarrow> 't unsafeSimpleSet" where
  "simple_SymmetricDiff s other =
     fold (\<lambda>elem diff. if \<not> simple_contains other elem then fst (simple_Add diff [elem]) else diff)
       (map fst s) (simple_Diff other s)"

definition simple_Equal :: "'t unsafeSimpleSet \<Rightarrow> 't unsafeSimpleSet \<Rightarrow> bool" where
  "simple_Equal s other =
     (if simple_Len s \<noteq> simple_Len other then False
      else range_all (\<lambda>elem. simple_contains other elem) (map fst s))"

definition simple_Intersect ::
  "'t unsafeSimpleSet \<Rightarrow> 't unsafeSimpleSet \<Rightarrow> 't unsafeSimpleSet" where
  "simple_Intersect s other =
     (let (smallerSet, largerSet) =
            (if simple_Len other < simple_Len s then (other, s) else (s, other))
      in fold (\<lambda>elem intersection.
                 if simple_contains largerSet elem then fst (simple_Add intersection [elem])
                 else intersection)
           (map fst smallerSet) newUnsafeSimpleSet)"

definition simple_IsSubset :: "'t unsafeSimpleSet \<Rightarrow> 't unsafeSimpleSet \<Rightarrow> bool" where
  "simple_IsSubset s other =
     (if simple_Len s > simple_Len other then False
      else range_all (\<lambda>elem. simple_contains other elem) (map fst s))"

text \<open>The keys of a simple set are its elements: \<open>eqSelf\<close> is \<^verbatim>\<open>==\<close> on \<open>T\<close>.\<close>

definition simple_Remove ::
  "('t \<Rightarrow> bool) \<Rightarrow> 't unsafeSimpleSet \<Rightarrow> 't list \<Rightarrow> 't unsafeSimpleSet" where
  "simple_Remove eqSelf s v = fold (\<lambda>val m. go_delete eqSelf val m) v s"

text \<open>\<open>zeroElem\<close> is the zero value of the element type, \<^verbatim>\<open>var zeroElem T\<close>.\<close>

definition simple_Pop ::
  "('t \<Rightarrow> bool) \<Rightarrow> 't \<Rightarrow> 't unsafeSimpleSet \<Rightarrow> ('t \<times> bool) \<times> 't unsafeSimpleSet" where
  "simple_Pop eqSelf zeroElem s =
     (case map fst s of
        [] \<Rightarrow> ((zeroElem, False), s)
      | elem # _ \<Rightarrow> ((elem, True), simple_Remove eqSelf s [elem]))"

definition simple_Union :: "'t unsafeSimpleSet \<Rightarrow> 't unsafeSimpleSet \<Rightarrow> 't unsafeSimpleSet" where
  "simple_Union s other =
     fold (\<lambda>elem union. fst (simple_Add union [elem])) (map fst other)
       (fold (\<lambda>elem union. fst (simple_Add union [elem])) (map fst s) newUnsafeSimpleSet)"

section \<open>unsafePrioritySet\<close>

text \<open>A nil \<^verbatim>\<open>Comparator\<close> is \<open>None\<close>. The comparator's Go \<^verbatim>\<open>int\<close> is only compared with 0.\<close>

record ('t, 'u) unsafePrioritySet =
  set_P :: "('u \<times> 't) list"
  keyGetter_P :: "'t \<Rightarrow> 'u"
  comparator :: "('t \<Rightarrow> 't \<Rightarrow> int) option"

definition newUnsafePrioritySet ::
  "('t \<Rightarrow> 'u) \<Rightarrow> ('t \<Rightarrow> 't \<Rightarrow> int) option \<Rightarrow> ('t, 'u) unsafePrioritySet" where
  "newUnsafePrioritySet keyGetter cmp =
     \<lparr>set_P = [], keyGetter_P = keyGetter, comparator = cmp\<rparr>"

text \<open>
  One round of the loop of \<^verbatim>\<open>Add\<close>: the condition
  \<^verbatim>\<open>!ok || (s.comparator != nil && s.comparator(item, val) > 0)\<close> guards the store.
\<close>

definition priority_Add_step ::
  "'t \<Rightarrow> ('t, 'u) unsafePrioritySet \<times> bool \<Rightarrow> ('t, 'u) unsafePrioritySet \<times> bool" where
  "priority_Add_step val sr =
     (let s = fst sr; ret = snd sr;
          key = keyGetter_P s val
      in case map_of (set_P s) key of
           None \<Rightarrow> (s\<lparr>set_P := AList.update key val (set_P s)\<rparr>, True)
         | Some item \<Rightarrow>
             (case comparator s of
                None \<Rightarrow> (s, ret)
              | Some cmp \<Rightarrow>
                  if cmp item val > 0
                  then (s\<lparr>set_P := AList.update key val (set_P s)\<rparr>, True)
                  else (s, ret)))"

definition priority_Add ::
  "('t, 'u) unsafePrioritySet \<Rightarrow> 't list \<Rightarrow> ('t, 'u) unsafePrioritySet \<times> bool" where
  "priority_Add s v = fold priority_Add_step v (s, False)"

definition priority_Len :: "('t, 'u) unsafePrioritySet \<Rightarrow> nat" where
  "priority_Len s = length (set_P s)"

definition priority_Clone :: "('t, 'u) unsafePrioritySet \<Rightarrow> ('t, 'u) unsafePrioritySet" where
  "priority_Clone s =
     fold (\<lambda>elem clonedSet. fst (priority_Add clonedSet [elem])) (map snd (set_P s))
       (newUnsafePrioritySet (keyGetter_P s) (comparator s))"

definition priority_contains :: "('t, 'u) unsafePrioritySet \<Rightarrow> 't \<Rightarrow> bool" where
  "priority_contains s v =
     (let key = keyGetter_P s v
      in case map_of (set_P s) key of
           None \<Rightarrow> False
         | Some elem \<Rightarrow> (case comparator s of None \<Rightarrow> True | Some cmp \<Rightarrow> cmp elem v = 0))"

definition priority_Contains :: "('t, 'u) unsafePrioritySet \<Rightarrow> 't list \<Rightarrow> bool" where
  "priority_Contains s v = range_all (\<lambda>val. priority_contains s val) v"

definition priority_Diff ::
  "('t, 'u) unsafePrioritySet \<Rightarrow> ('t, 'u) unsafePrioritySet \<Rightarrow> ('t, 'u) unsafePrioritySet" where
  "priority_Diff s other =
     fold (\<lambda>elem diff. if \<not> priority_contains other elem then fst (priority_Add diff [elem]) else diff)
       (map snd (set_P s)) (newUnsafePrioritySet (keyGetter_P s) (comparator s))"

definition priority_SymmetricDiff ::
  "('t, 'u) unsafePrioritySet \<Rightarrow> ('t, 'u) unsafePrioritySet \<Rightarrow> ('t, 'u) unsafePrioritySet" where
  "priority_SymmetricDiff s other =
     fold (\<lambda>elem diff. if \<not> priority_contains other elem then fst (priority_Add diff [elem]) else diff)
       (map snd (set_P s)) (priority_Diff other s)"

definition priority_Equal ::
  "('t, 'u) unsafePrioritySet \<Rightarrow> ('t, 'u) unsafePrioritySet \<Rightarrow> bool" where
  "priority_Equal s other =
     (if priority_Len s \<noteq> priority_Len other then False
      else range_all (\<lambda>elem. priority_contains other elem) (map snd (set_P s)))"

definition priority_Intersect ::
  "('t, 'u) unsafePrioritySet \<Rightarrow> ('t, 'u) unsafePrioritySet \<Rightarrow> ('t, 'u) unsafePrioritySet" where
  "priority_Intersect s other =
     (let (smallerSet, largerSet) =
            (if priority_Len other < priority_Len s then (other, s) else (s, other))
      in fold (\<lambda>elem intersection.
                 if priority_contains largerSet elem then fst (priority_Add intersection [elem])
                 else intersection)
           (map snd (set_P smallerSet)) (newUnsafePrioritySet (keyGetter_P s) (comparator s)))"

definition priority_IsSubset ::
  "('t, 'u) unsafePrioritySet \<Rightarrow> ('t, 'u) unsafePrioritySet \<Rightarrow> bool" where
  "priority_IsSubset s other =
     (if priority_Len s > priority_Len other then False
      else range_all (\<lambda>elem. priority_contains other elem) (map snd (set_P s)))"

definition priority_Remove ::
  "('u \<Rightarrow> bool) \<Rightarrow> ('t, 'u) unsafePrioritySet \<Rightarrow> 't list \<Rightarrow> ('t, 'u) unsafePrioritySet" where
  "priority_Remove eqSelf s v =
     fold (\<lambda>val s. let key = keyGetter_P s val in s\<lparr>set_P := go_delete eqSelf key (set_P s)\<rparr>) v s"

definition priority_Pop ::
  "('u \<Rightarrow> bool) \<Rightarrow> 't \<Rightarrow> ('t, 'u) unsafePrioritySet \<Rightarrow> ('t \<times> bool) \<times> ('t, 'u) unsafePrioritySet" where
  "priority_Pop eqSelf zeroElem s =
     (case map snd (set_P s) of
        [] \<Rightarrow> ((zeroElem, False), s)
      | elem # _ \<Rightarrow> ((elem, True), priority_Remove eqSelf s [elem]))"

definition priority_Union ::
  "('t, 'u) unsafePrioritySet \<Rightarrow> ('t, 'u) unsafePrioritySet \<Rightarrow> ('t, 'u) unsafePrioritySet" where
  "priority_Union s other =
     fold (\<lambda>elem union. fst (priority_Add union [elem])) (map snd (set_P other))
       (fold (\<lambda>elem union. fst (priority_Add union [elem])) (map snd (set_P s))
          (newUnsafePrioritySet (keyGetter_P s) (comparator s)))"

section \<open>unsafeResolvingSet\<close>

text \<open>
  Modelled from the spec: the declaration of the type \<^verbatim>\<open>Resolver[T]\<close> is not among the
  sources. As \<^verbatim>\<open>Add\<close> calls it, and as the specification describes it, a resolver takes
  the stored and the incoming element and returns the element to keep and whether to
  replace; nil is \<open>None\<close>.
\<close>

record ('t, 'u) unsafeResolvingSet =
  set_R :: "('u \<times> 't) list"
  keyGetter_R :: "'t \<Rightarrow> 'u"
  resolver :: "('t \<Rightarrow> 't \<Rightarrow> 't \<times> bool) option"

definition newUnsafeResolvingSet ::
  "('t \<Rightarrow> 'u) \<Rightarrow> ('t \<Rightarrow> 't \<Rightarrow> 't \<times> bool) option \<Rightarrow> ('t, 'u) unsafeResolvingSet" where
  "newUnsafeResolvingSet keyGetter res =
     \<lparr>set_R = [], keyGetter_R = keyGetter, resolver = res\<rparr>"

text \<open>
  One round of the loop of \<^verbatim>\<open>Add\<close>. The \<^verbatim>\<open>ok\<close> of the inner \<^verbatim>\<open>if\<close> shadows the outer
  one, so the second test \<^verbatim>\<open>if !ok\<close> still reads the result of the lookup.
\<close>

definition resolving_Add_step ::
  "'t \<Rightarrow> ('t, 'u) unsafeResolvingSet \<times> bool \<Rightarrow> ('t, 'u) unsafeResolvingSet \<times> bool" where
  "resolving_Add_step val sr =
     (let s = fst sr; ret = snd sr;
          key = keyGetter_R s val
      in case map_of (set_R s) key of
           Some foundItem \<Rightarrow>
             (case resolver s of
                None \<Rightarrow> (s, ret)
              | Some res \<Rightarrow>
                  (let (newItem, ok) = res foundItem val
                   in if ok then (s\<lparr>set_R := AList.update key newItem (set_R s)\<rparr>, True)
                      else (s, ret)))
         | None \<Rightarrow> (s\<lparr>set_R := AList.update key val (set_R s)\<rparr>, True))"

definition resolving_Add ::
  "('t, 'u) unsafeResolvingSet \<Rightarrow> 't list \<Rightarrow> ('t, 'u) unsafeResolvingSet \<times> bool" where
  "resolving_Add s v = fold resolving_Add_step v (s, False)"

definition resolving_Len :: "('t, 'u) unsafeResolvingSet \<Rightarrow> nat" where
  "resolving_Len s = length (set_R s)"

definition resolving_Clone :: "('t, 'u) unsafeResolvingSet \<Rightarrow> ('t, 'u) unsafeResolvingSet" where
  "resolving_Clone s =
     fold (\<lambda>elem clonedSet. fst (resolving_Add clonedSet [elem])) (map snd (set_R s))
       (newUnsafeResolvingSet (keyGetter_R s) (resolver s))"

definition resolving_contains :: "('t, 'u) unsafeResolvingSet \<Rightarrow> 't \<Rightarrow> bool" where
  "resolving_contains s v =
     (let key = keyGetter_R s v
      in case map_of (set_R s) key of None \<Rightarrow> False | Some _ \<Rightarrow> True)"

definition resolving_Contains :: "('t, 'u) unsafeResolvingSet \<Rightarrow> 't list \<Rightarrow> bool" where
  "resolving_Contains s v = range_all (\<lambda>val. resolving_contains s val) v"

definition resolving_Diff ::
  "('t, 'u) unsafeResolvingSet \<Rightarrow> ('t, 'u) unsafeResolvingSet \<Rightarrow> ('t, 'u) unsafeResolvingSet" where
  "resolving_Diff s other =
     fold (\<lambda>elem diff. if \<not> resolving_contains other elem then fst (resolving_Add diff [elem]) else diff)
       (map snd (set_R s)) (newUnsafeResolvingSet (keyGetter_R s) (resolver s))"

definition resolving_SymmetricDiff ::
  "('t, 'u) unsafeResolvingSet \<Rightarrow> ('t, 'u) unsafeResolvingSet \<Rightarrow> ('t, 'u) unsafeResolvingSet" where
  "resolving_SymmetricDiff s other =
     fold (\<lambda>elem diff. if \<not> resolving_contains other elem then fst (resolving_Add diff [elem]) else diff)
       (map snd (set_R s)) (resolving_Diff other s)"

definition resolving_Equal ::
  "('t, 'u) unsafeResolvingSet \<Rightarrow> ('t, 'u) unsafeResolvingSet \<Rightarrow> bool" where
  "resolving_Equal s other =
     (if resolving_Len s \<noteq> resolving_Len other then False
      else range_all (\<lambda>elem. resolving_contains other elem) (map snd (set_R s)))"

definition resolving_Intersect ::
  "('t, 'u) unsafeResolvingSet \<Rightarrow> ('t, 'u) unsafeResolvingSet \<Rightarrow> ('t, 'u) unsafeResolvingSet" where
  "resolving_Intersect s other =
     (let (smallerSet, largerSet) =
            (if resolving_Len other < resolving_Len s then (other, s) else (s, other))
      in fold (\<lambda>elem intersection.
                 if resolving_contains largerSet elem then fst (resolving_Add intersection [elem])
                 else intersection)
           (map snd (set_R smallerSet)) (newUnsafeResolvingSet (keyGetter_R s) (resolver s)))"

definition resolving_IsSubset ::
  "('t, 'u) unsafeResolvingSet \<Rightarrow> ('t, 'u) unsafeResolvingSet \<Rightarrow> bool" where
  "resolving_IsSubset s other =
     (if resolving_Len s > resolving_Len other then False
      else range_all (\<lambda>elem. resolving_contains other elem) (map snd (set_R s)))"

definition resolving_Remove ::
  "('u \<Rightarrow> bool) \<Rightarrow> ('t, 'u) unsafeResolvingSet \<Rightarrow> 't list \<Rightarrow> ('t, 'u) unsafeResolvingSet" where
  "resolving_Remove eqSelf s v =
     fold (\<lambda>val s. let key = keyGetter_R s val in s\<lparr>set_R := go_delete eqSelf key (set_R s)\<rparr>) v s"

definition resolving_Pop ::
  "('u \<Rightarrow> bool) \<Rightarrow> 't \<Rightarrow> ('t, 'u) unsafeResolvingSet \<Rightarrow> ('t \<times> bool) \<times> ('t, 'u) unsafeResolvingSet" where
  "resolving_Pop eqSelf zeroElem s =
     (case map snd (set_R s) of
        [] \<Rightarrow> ((zeroElem, False), s)
      | elem # _ \<Rightarrow> ((elem, True), resolving_Remove eqSelf s [elem]))"

definition resolving_Union ::
  "('t, 'u) unsafeResolvingSet \<Rightarrow> ('t, 'u) unsafeResolvingSet \<Rightarrow> ('t, 'u) unsafeResolvingSet" where
  "resolving_Union s other =
     fold (\<lambda>elem union. fst (resolving_Add union [elem])) (map snd (set_R other))
       (fold (\<lambda>elem union. fst (resolving_Add union [elem])) (map snd (set_R s))
          (newUnsafeResolvingSet (keyGetter_R s) (resolver s)))"

section \<open>The interface \<^verbatim>\<open>Set[T]\<close> and the wrapper safeSet\<close>

text \<open>
  A value of the interface is one of the three engines or a \<^verbatim>\<open>safeSet[T, U]\<close>, whose
  field \<^verbatim>\<open>set\<close> is again a value of the interface. Every method of \<^verbatim>\<open>safeSet\<close> releases
  the lock it takes before it returns, so between two calls the embedded
  \<^verbatim>\<open>sync.RWMutex\<close> is always unlocked and is left out of the state.

  The type argument \<open>U\<close> of a wrapper is part of its Go type, and the assertion
  \<^verbatim>\<open>other.(*safeSet[T, U])\<close> fails against a wrapper with another \<open>U\<close>.
  \<^verbatim>\<open>newSafeSimpleSet\<close> builds a \<^verbatim>\<open>safeSet[T, struct{}]\<close>, \<^verbatim>\<open>newSafeResolvingSet\<close> a
  \<^verbatim>\<open>safeSet[T, U]\<close> with the key type \<open>U\<close>. The wrapper carries its type argument:
  \<open>Struct_Empty\<close> is \<^verbatim>\<open>struct{}\<close>, \<open>Key_Type\<close> is the key type \<open>'u\<close> of the keyed sets
  when that is another type than \<^verbatim>\<open>struct{}\<close>. The key type of the engines is the same
  \<open>'u\<close> for all values, so two engines of one constructor have the same Go type.

  A method call on the interface dispatches on the constructor; the type assertion on the
  argument is the pattern on the second one and, between two wrappers, the test of the
  type arguments.
\<close>

datatype type_arg = Struct_Empty | Key_Type

datatype ('t, 'u) Set_T =
    UnsafeSimpleSet "'t unsafeSimpleSet"
  | UnsafePrioritySet "('t, 'u) unsafePrioritySet"
  | UnsafeResolvingSet "('t, 'u) unsafeResolvingSet"
  | SafeSet type_arg "('t, 'u) Set_T"

fun Set_Add :: "('t, 'u) Set_T \<Rightarrow> 't list \<Rightarrow> ('t, 'u) Set_T \<times> bool" where
  "Set_Add (UnsafeSimpleSet s) v = (let (s', r) = simple_Add s v in (UnsafeSimpleSet s', r))"
| "Set_Add (UnsafePrioritySet s) v = (let (s', r) = priority_Add s v in (UnsafePrioritySet s', r))"
| "Set_Add (UnsafeResolvingSet s) v = (let (s', r) = resolving_Add s v in (UnsafeResolvingSet s', r))"
| "Set_Add (SafeSet U s) v = (let (s', r) = Set_Add s v in (SafeSet U s', r))"

fun Set_Len :: "('t, 'u) Set_T \<Rightarrow> nat" where
  "Set_Len (UnsafeSimpleSet s) = simple_Len s"
| "Set_Len (UnsafePrioritySet s) = priority_Len s"
| "Set_Len (UnsafeResolvingSet s) = resolving_Len s"
| "Set_Len (SafeSet U s) = Set_Len s"

fun Set_Clone :: "('t, 'u) Set_T \<Rightarrow> ('t, 'u) Set_T" where
  "Set_Clone (UnsafeSimpleSet s) = UnsafeSimpleSet (simple_Clone s)"
| "Set_Clone (UnsafePrioritySet s) = UnsafePrioritySet (priority_Clone s)"
| "Set_Clone (UnsafeResolvingSet s) = UnsafeResolvingSet (resolving_Clone s)"
| "Set_Clone (SafeSet U s) = (let unsafeClone = Set_Clone s in SafeSet U unsafeClone)"

fun Set_Contains :: "('t, 'u) Set_T \<Rightarrow> 't list \<Rightarrow> bool" where
  "Set_Contains (UnsafeSimpleSet s) v = simple_Contains s v"
| "Set_Contains (UnsafePrioritySet s) v = priority_Contains s v"
| "Set_Contains (UnsafeResolvingSet s) v = resolving_Contains s v"
| "Set_Contains (SafeSet U s) v = Set_Contains s v"

fun Set_Diff :: "('t, 'u) Set_T \<Rightarrow> ('t, 'u) Set_T \<Rightarrow> error + ('t, 'u) Set_T" where
  "Set_Diff (UnsafeSimpleSet s) (UnsafeSimpleSet other) = Inr (UnsafeSimpleSet (simple_Diff s other))"
| "Set_Diff (UnsafePrioritySet s) (UnsafePrioritySet other) =
     Inr (UnsafePrioritySet (priority_Diff s other))"
| "Set_Diff (UnsafeResolvingSet s) (UnsafeResolvingSet other) =
     Inr (UnsafeResolvingSet (resolving_Diff s other))"
| "Set_Diff (SafeSet U s) (SafeSet U' other) =
     (if U' \<noteq> U then Inl TypeMismatch
      else case Set_Diff s other of
             Inl e \<Rightarrow> Inl e
           | Inr unsafeDiff \<Rightarrow> Inr (SafeSet U unsafeDiff))"
| "Set_Diff _ _ = Inl TypeMismatch"

fun Set_SymmetricDiff :: "('t, 'u) Set_T \<Rightarrow> ('t, 'u) Set_T \<Rightarrow> error + ('t, 'u) Set_T" where
  "Set_SymmetricDiff (UnsafeSimpleSet s) (UnsafeSimpleSet other) =
     Inr (UnsafeSimpleSet (simple_SymmetricDiff s other))"
| "Set_SymmetricDiff (UnsafePrioritySet s) (UnsafePrioritySet other) =
     Inr (UnsafePrioritySet (priority_SymmetricDiff s other))"
| "Set_SymmetricDiff (UnsafeResolvingSet s) (UnsafeResolvingSet other) =
     Inr (UnsafeResolvingSet (resolving_SymmetricDiff s other))"
| "Set_SymmetricDiff (SafeSet U s) (SafeSet U' other) =
     (if U' \<noteq> U then Inl TypeMismatch
      else case Set_SymmetricDiff s other of
             Inl e \<Rightarrow> Inl e
           | Inr unsafeDiff \<Rightarrow> Inr (SafeSet U unsafeDiff))"
| "Set_SymmetricDiff _ _ = Inl TypeMismatch"

fun Set_Equal :: "('t, 'u) Set_T \<Rightarrow> ('t, 'u) Set_T \<Rightarrow> error + bool" where
  "Set_Equal (UnsafeSimpleSet s) (UnsafeSimpleSet other) = Inr (simple_Equal s other)"
| "Set_Equal (UnsafePrioritySet s) (UnsafePrioritySet other) = Inr (priority_Equal s other)"
| "Set_Equal (UnsafeResolvingSet s) (UnsafeResolvingSet other) = Inr (resolving_Equal s other)"
| "Set_Equal (SafeSet U s) (SafeSet U' other) =
     (if U' \<noteq> U then Inl TypeMismatch else Set_Equal s other)"
| "Set_Equal _ _ = Inl TypeMismatch"

fun Set_Intersect :: "('t, 'u) Set_T \<Rightarrow> ('t, 'u) Set_T \<Rightarrow> error + ('t, 'u) Set_T" where
  "Set_Intersect (UnsafeSimpleSet s) (UnsafeSimpleSet other) =
     Inr (UnsafeSimpleSet (simple_Intersect s other))"
| "Set_Intersect (UnsafePrioritySet s) (UnsafePrioritySet other) =
     Inr (UnsafePrioritySet (priority_Intersect s other))"
| "Set_Intersect (UnsafeResolvingSet s) (UnsafeResolvingSet other) =
     Inr (UnsafeResolvingSet (resolving_Intersect s other))"
| "Set_Intersect (SafeSet U s) (SafeSet U' other) =
     (if U' \<noteq> U then Inl TypeMismatch
      else case Set_Intersect s other of
             Inl e \<Rightarrow> Inl e
           | Inr unsafeIntersection \<Rightarrow> Inr (SafeSet U unsafeIntersection))"
| "Set_Intersect _ _ = Inl TypeMismatch"

fun Set_IsSubset :: "('t, 'u) Set_T \<Rightarrow> ('t, 'u) Set_T \<Rightarrow> error + bool" where
  "Set_IsSubset (UnsafeSimpleSet s) (UnsafeSimpleSet other) = Inr (simple_IsSubset s other)"
| "Set_IsSubset (UnsafePrioritySet s) (UnsafePrioritySet other) = Inr (priority_IsSubset s other)"
| "Set_IsSubset (UnsafeResolvingSet s) (UnsafeResolvingSet other) = Inr (resolving_IsSubset s other)"
| "Set_IsSubset (SafeSet U s) (SafeSet U' other) =
     (if U' \<noteq> U then Inl TypeMismatch else Set_IsSubset s other)"
| "Set_IsSubset _ _ = Inl TypeMismatch"

text \<open>
  The engines' \<^verbatim>\<open>IsProperSubset\<close> is \<^verbatim>\<open>s.Len() < other.Len() && s.IsSubset(other)\<close>: the
  argument is asserted only if the comparison of the lengths holds. The wrapper's first
  statement is the assertion \<^verbatim>\<open>o := other.(*safeSet[T, U])\<close>; then it calls
  \<^verbatim>\<open>s.set.IsProperSubset(o.set)\<close>.
\<close>

fun Set_IsProperSubset :: "('t, 'u) Set_T \<Rightarrow> ('t, 'u) Set_T \<Rightarrow> error + bool" where
  "Set_IsProperSubset (SafeSet U s) (SafeSet U' other) =
     (if U' \<noteq> U then Inl TypeMismatch else Set_IsProperSubset s other)"
| "Set_IsProperSubset (SafeSet U s) other = Inl TypeMismatch"
| "Set_IsProperSubset s other =
     (if Set_Len s < Set_Len other then Set_IsSubset s other else Inr False)"

text \<open>All four types implement \<^verbatim>\<open>IsSuperset\<close> as \<^verbatim>\<open>other.IsSubset(s)\<close>.\<close>

definition Set_IsSuperset :: "('t, 'u) Set_T \<Rightarrow> ('t, 'u) Set_T \<Rightarrow> error + bool" where
  "Set_IsSuperset s other = Set_IsSubset other s"

text \<open>
  The engines' \<^verbatim>\<open>IsProperSuperset\<close> is \<^verbatim>\<open>s.Len() > other.Len() && s.IsSuperset(other)\<close>,
  the wrapper's is \<^verbatim>\<open>other.IsProperSubset(s)\<close>.
\<close>

fun Set_IsProperSuperset :: "('t, 'u) Set_T \<Rightarrow> ('t, 'u) Set_T \<Rightarrow> error + bool" where
  "Set_IsProperSuperset (SafeSet U s) other = Set_IsProperSubset other (SafeSet U s)"
| "Set_IsProperSuperset s other =
     (if Set_Len s > Set_Len other then Set_IsSuperset s other else Inr False)"

text \<open>
  \<open>eqT\<close> is the test \<^verbatim>\<open>x == x\<close> on the element type (the keys of a simple set), \<open>eqU\<close> the
  one on the key type of the keyed sets.
\<close>

fun Set_Remove ::
  "('t \<Rightarrow> bool) \<Rightarrow> ('u \<Rightarrow> bool) \<Rightarrow> ('t, 'u) Set_T \<Rightarrow> 't list \<Rightarrow> ('t, 'u) Set_T" where
  "Set_Remove eqT eqU (UnsafeSimpleSet s) v = UnsafeSimpleSet (simple_Remove eqT s v)"
| "Set_Remove eqT eqU (UnsafePrioritySet s) v = UnsafePrioritySet (priority_Remove eqU s v)"
| "Set_Remove eqT eqU (UnsafeResolvingSet s) v = UnsafeResolvingSet (resolving_Remove eqU s v)"
| "Set_Remove eqT eqU (SafeSet U s) v = SafeSet U (Set_Remove eqT eqU s v)"

fun Set_Pop ::
  "('t \<Rightarrow> bool) \<Rightarrow> ('u \<Rightarrow> bool) \<Rightarrow> 't \<Rightarrow> ('t, 'u) Set_T \<Rightarrow> ('t \<times> bool) \<times> ('t, 'u) Set_T" where
  "Set_Pop eqT eqU zeroElem (UnsafeSimpleSet s) =
     (let (r, s') = simple_Pop eqT zeroElem s in (r, UnsafeSimpleSet s'))"
| "Set_Pop eqT eqU zeroElem (UnsafePrioritySet s) =
     (let (r, s') = priority_Pop eqU zeroElem s in (r, UnsafePrioritySet s'))"
| "Set_Pop eqT eqU zeroElem (UnsafeResolvingSet s) =
     (let (r, s') = resolving_Pop eqU zeroElem s in (r, UnsafeResolvingSet s'))"
| "Set_Pop eqT eqU zeroElem (SafeSet U s) =
     (let (r, s') = Set_Pop eqT eqU zeroElem s in (r, SafeSet U s'))"

text \<open>
  \<^verbatim>\<open>safeSet.Union\<close> ends in \<^verbatim>\<open>return s.set.Union(o.set)\<close>: unlike \<^verbatim>\<open>Diff\<close>,
  \<^verbatim>\<open>SymmetricDiff\<close> and \<^verbatim>\<open>Intersect\<close> it hands out the engine's result as it is.
\<close>

fun Set_Union :: "('t, 'u) Set_T \<Rightarrow> ('t, 'u) Set_T \<Rightarrow> error + ('t, 'u) Set_T" where
  "Set_Union (UnsafeSimpleSet s) (UnsafeSimpleSet other) =
     Inr (UnsafeSimpleSet (simple_Union s other))"
| "Set_Union (UnsafePrioritySet s) (UnsafePrioritySet other) =
     Inr (UnsafePrioritySet (priority_Union s other))"
| "Set_Union (UnsafeResolvingSet s) (UnsafeResolvingSet other) =
     Inr (UnsafeResolvingSet (resolving_Union s other))"
| "Set_Union (SafeSet U s) (SafeSet U' other) =
     (if U' \<noteq> U then Inl TypeMismatch else Set_Union s other)"
| "Set_Union _ _ = Inl TypeMismatch"

text \<open>
  The constructors of the package. \<^verbatim>\<open>NewSet\<close> wraps with \<^verbatim>\<open>newSafeSimpleSet\<close>, whose
  type argument is \<^verbatim>\<open>struct{}\<close>; the type argument \<open>U\<close> of \<^verbatim>\<open>newSafeResolvingSet[T, U]\<close>
  is a parameter.
\<close>

definition NewSet :: "'t list \<Rightarrow> ('t, 'u) Set_T" where
  "NewSet v = fst (Set_Add (SafeSet Struct_Empty (UnsafeSimpleSet newUnsafeSimpleSet)) v)"

definition NewThreadUnsafeSet :: "'t list \<Rightarrow> ('t, 'u) Set_T" where
  "NewThreadUnsafeSet v = fst (Set_Add (UnsafeSimpleSet newUnsafeSimpleSet) v)"


definition newSafeResolvingSet ::
  "type_arg \<Rightarrow> ('t \<Rightarrow> 'u) \<Rightarrow> ('t \<Rightarrow> 't \<Rightarrow> 't \<times> bool) option \<Rightarrow> ('t, 'u) Set_T" where
  "newSafeResolvingSet U keyGetter res =
     SafeSet U (UnsafeResolvingSet (newUnsafeResolvingSet keyGetter res))"

section \<open>The key-to-element mapping of a set\<close>

fun entries :: "('t, 'u) Set_T \<Rightarrow> (('t + 'u) \<times> 't) list" where
  "entries (UnsafeSimpleSet s) = map (\<lambda>(k, _). (Inl k, k)) s"
| "entries (UnsafePrioritySet s) = map (\<lambda>(k, e). (Inr k, e)) (set_P s)"
| "entries (UnsafeResolvingSet s) = map (\<lambda>(k, e). (Inr k, e)) (set_R s)"
| "entries (SafeSet U s) = entries s"

fun keyOf :: "('t, 'u) Set_T \<Rightarrow> 't \<Rightarrow> 't + 'u" where
  "keyOf (UnsafeSimpleSet s) v = Inl v"
| "keyOf (UnsafePrioritySet s) v = Inr (keyGetter_P s v)"
| "keyOf (UnsafeResolvingSet s) v = Inr (keyGetter_R s v)"
| "keyOf (SafeSet U s) v = keyOf s v"

definition stored :: "('t, 'u) Set_T \<Rightarrow> 't + 'u \<Rightarrow> 't option" where
  "stored S k = map_of (entries S) k"

definition keys :: "('t, 'u) Set_T \<Rightarrow> ('t + 'u) set" where
  "keys S = fst ` set (entries S)"

definition key_present :: "('t, 'u) Set_T \<Rightarrow> 't \<Rightarrow> bool" where
  "key_present S v = (keyOf S v \<in> keys S)"

fun comparator_of :: "('t, 'u) Set_T \<Rightarrow> ('t \<Rightarrow> 't \<Rightarrow> int) option" where
  "comparator_of (UnsafePrioritySet s) = comparator s"
| "comparator_of (SafeSet U s) = comparator_of s"
| "comparator_of _ = None"

text \<open>
  Two values have the same concrete type, and so have the sets they wrap: the type
  assertions of a binary method hold.
\<close>

fun same_variant :: "('t, 'u) Set_T \<Rightarrow> ('t, 'u) Set_T \<Rightarrow> bool" where
  "same_variant (UnsafeSimpleSet _) (UnsafeSimpleSet _) = True"
| "same_variant (UnsafePrioritySet _) (UnsafePrioritySet _) = True"
| "same_variant (UnsafeResolvingSet _) (UnsafeResolvingSet _) = True"
| "same_variant (SafeSet U s) (SafeSet U' other) = (U' = U \<and> same_variant s other)"
| "same_variant _ _ = False"

fun is_safe :: "('t, 'u) Set_T \<Rightarrow> bool" where
  "is_safe (SafeSet _ _) = True"
| "is_safe _ = False"

text \<open>Two wrappers with the same type arguments: the wrapper's own assertion holds.\<close>

fun same_wrapper :: "('t, 'u) Set_T \<Rightarrow> ('t, 'u) Set_T \<Rightarrow> bool" where
  "same_wrapper (SafeSet U _) (SafeSet U' _) = (U' = U)"
| "same_wrapper _ _ = False"

text \<open>
  The resolution function of a set, in the shape of a resolver: a comparator signals
  replacement by a positive result and then the incoming element is stored.
\<close>

fun resolution_of :: "('t, 'u) Set_T \<Rightarrow> ('t \<Rightarrow> 't \<Rightarrow> 't \<times> bool) option" where
  "resolution_of (UnsafeSimpleSet s) = None"
| "resolution_of (UnsafePrioritySet s) =
     map_option (\<lambda>cmp foundItem newItem. (newItem, cmp foundItem newItem > 0)) (comparator s)"
| "resolution_of (UnsafeResolvingSet s) = resolver s"
| "resolution_of (SafeSet U s) = resolution_of s"

text \<open>\<open>put S v e\<close> stores the element \<open>e\<close> under the key of \<open>v\<close>.\<close>

fun put :: "('t, 'u) Set_T \<Rightarrow> 't \<Rightarrow> 't \<Rightarrow> ('t, 'u) Set_T" where
  "put (UnsafeSimpleSet s) v e = UnsafeSimpleSet (AList.update v () s)"
| "put (UnsafePrioritySet s) v e =
     UnsafePrioritySet (s\<lparr>set_P := AList.update (keyGetter_P s v) e (set_P s)\<rparr>)"
| "put (UnsafeResolvingSet s) v e =
     UnsafeResolvingSet (s\<lparr>set_R := AList.update (keyGetter_R s v) e (set_R s)\<rparr>)"
| "put (SafeSet U s) v e = SafeSet U (put s v e)"

text \<open>
  \<^verbatim>\<open>Add\<close> in the words of the specification: for each element, compute the key; if it
  is absent, insert and mark changed; if it is present and a resolution function exists,
  invoke it, and if it signals replacement overwrite the stored value and mark changed;
  otherwise do nothing for that element.
\<close>

definition spec_add1 :: "('t, 'u) Set_T \<Rightarrow> 't \<Rightarrow> ('t, 'u) Set_T \<times> bool" where
  "spec_add1 S v =
     (case stored S (keyOf S v) of
        None \<Rightarrow> (put S v v, True)
      | Some foundItem \<Rightarrow>
          (case resolution_of S of
             None \<Rightarrow> (S, False)
           | Some res \<Rightarrow>
               (let (chosen, replaced) = res foundItem v
                in if replaced then (put S v chosen, True) else (S, False))))"


text \<open>A keyed set whose resolution function is nil.\<close>

fun nil_keyed :: "('t, 'u) Set_T \<Rightarrow> bool" where
  "nil_keyed (UnsafeSimpleSet s) = False"
| "nil_keyed (UnsafePrioritySet s) = (comparator s = None)"
| "nil_keyed (UnsafeResolvingSet s) = (resolver s = None)"
| "nil_keyed (SafeSet U s) = nil_keyed s"



text \<open>The stored elements, in the order of a \<^verbatim>\<open>range\<close> loop.\<close>

definition elems :: "('t, 'u) Set_T \<Rightarrow> 't list" where
  "elems S = map snd (entries S)"

text \<open>A Go map holds one entry per key.\<close>

definition distinct_keys :: "('t, 'u) Set_T \<Rightarrow> bool" where
  "distinct_keys S = distinct (map fst (entries S))"

text \<open>Every stored element is filed under the key that the set derives from it.\<close>

definition keyed :: "('t, 'u) Set_T \<Rightarrow> bool" where
  "keyed S = list_all (\<lambda>(k, e). keyOf S e = k) (entries S)"

text \<open>
  The payload test of \<^verbatim>\<open>unsafePrioritySet.contains\<close>: with a comparator, the stored
  element \<open>e'\<close> and the argument \<open>e\<close> must compare as 0; the other sets test nothing.
\<close>

definition accepts :: "('t, 'u) Set_T \<Rightarrow> 't \<Rightarrow> 't \<Rightarrow> bool" where
  "accepts S e' e = (case comparator_of S of None \<Rightarrow> True | Some cmp \<Rightarrow> cmp e' e = 0)"

text \<open>
  The loop shared by \<^verbatim>\<open>Diff\<close>, \<^verbatim>\<open>SymmetricDiff\<close>, \<^verbatim>\<open>Intersect\<close> and \<^verbatim>\<open>Union\<close>:
  \<^verbatim>\<open>for _, elem := range es { if p(elem) { acc.Add(elem) } }\<close>.
\<close>

definition add_each_where :: "('t \<Rightarrow> bool) \<Rightarrow> 't list \<Rightarrow> ('t, 'u) Set_T \<Rightarrow> ('t, 'u) Set_T" where
  "add_each_where p es acc =
     fold (\<lambda>elem acc. if p elem then fst (Set_Add acc [elem]) else acc) es acc"

text \<open>The empty set that an engine creates for a result: same key getter and resolution.\<close>

fun fresh_like :: "('t, 'u) Set_T \<Rightarrow> ('t, 'u) Set_T" where
  "fresh_like (UnsafeSimpleSet s) = UnsafeSimpleSet newUnsafeSimpleSet"
| "fresh_like (UnsafePrioritySet s) =
     UnsafePrioritySet (newUnsafePrioritySet (keyGetter_P s) (comparator s))"
| "fresh_like (UnsafeResolvingSet s) =
     UnsafeResolvingSet (newUnsafeResolvingSet (keyGetter_R s) (resolver s))"
| "fresh_like (SafeSet U s) = SafeSet U (fresh_like s)"


text \<open>The operand that \<^verbatim>\<open>Intersect\<close> iterates, and the one it tests membership in.\<close>

definition smallerSet :: "('t, 'u) Set_T \<Rightarrow> ('t, 'u) Set_T \<Rightarrow> ('t, 'u) Set_T" where
  "smallerSet A B = (if Set_Len B < Set_Len A then B else A)"

definition largerSet :: "('t, 'u) Set_T \<Rightarrow> ('t, 'u) Set_T \<Rightarrow> ('t, 'u) Set_T" where
  "largerSet A B = (if Set_Len B < Set_Len A then A else B)"



text \<open>A resolver that returns an element with another key than its arguments.\<close>

definition rekeying_resolver :: "nat \<times> nat \<Rightarrow> nat \<times> nat \<Rightarrow> (nat \<times> nat) \<times> bool" where
  "rekeying_resolver foundItem newItem = ((fst foundItem + 8, snd newItem), True)"


text \<open>
  The values of a \<^verbatim>\<open>float64\<close> as far as \<^verbatim>\<open>==\<close> tells them apart: a number or NaN.
  \<open>float64_eq_self x\<close> is \<^verbatim>\<open>x == x\<close>, false exactly for NaN. Every \<^verbatim>\<open>int\<close> is equal to
  itself.
\<close>

datatype float64 = Num int | NaN

fun float64_eq_self :: "float64 \<Rightarrow> bool" where
  "float64_eq_self (Num _) = True"
| "float64_eq_self NaN = False"

definition int_eq_self :: "nat \<Rightarrow> bool" where
  "int_eq_self k = True"

text \<open>
  \<^verbatim>\<open>==\<close> on a struct of two \<^verbatim>\<open>int\<close> fields (ID, Importance) compares field by field.
\<close>

definition pair_eq_self :: "nat \<times> nat \<Rightarrow> bool" where
  "pair_eq_self e = (int_eq_self (fst e) \<and> int_eq_self (snd e))"

text \<open>The test \<^verbatim>\<open>k == k\<close> on a key of either kind of set.\<close>

fun key_eq_self :: "('t \<Rightarrow> bool) \<Rightarrow> ('u \<Rightarrow> bool) \<Rightarrow> 't + 'u \<Rightarrow> bool" where
  "key_eq_self eqT eqU (Inl k) = eqT k"
| "key_eq_self eqT eqU (Inr k) = eqU k"

section \<open>Membership\<close>

lemma range_all_iff: "range_all p xs \<longleftrightarrow> (\<forall>x\<in>set xs. p x)"
  by (induction xs) auto

lemma map_of_simple_entries:
  "map_of (map (\<lambda>(k, _). (Inl k, k)) s) (Inl v) = (if v \<in> fst ` set s then Some v else None)"
  by (induction s) (auto simp: image_iff)

lemma map_of_simple_entries_Inr [simp]:
  "map_of (map (\<lambda>(k, _). (Inl k, k)) s) (Inr u) = None"
  by (induction s) auto

lemma map_of_keyed_entries [simp]:
  "map_of (map (\<lambda>(k, e). (Inr k, e)) m) (Inr k) = map_of m k"
  by (induction m) auto

lemma map_of_keyed_entries_Inl [simp]:
  "map_of (map (\<lambda>(k, e). (Inr k, e)) m) (Inl v) = None"
  by (induction m) auto

lemma keys_iff_stored: "k \<in> keys S \<longleftrightarrow> stored S k \<noteq> None"
  by (simp add: keys_def stored_def map_of_eq_None_iff)

lemma Contains_stored:
  "Set_Contains S vs \<longleftrightarrow>
     (\<forall>v\<in>set vs. \<exists>e. stored S (keyOf S v) = Some e \<and>
        (\<forall>cmp. comparator_of S = Some cmp \<longrightarrow> cmp e v = 0))"
proof (induction S)
  case (UnsafeSimpleSet s)
  show ?case
    by (auto simp: simple_Contains_def simple_contains_def range_all_iff stored_def
        map_of_simple_entries map_of_eq_None_iff split: option.splits)
next
  case (UnsafePrioritySet s)
  show ?case
    by (auto simp: priority_Contains_def priority_contains_def range_all_iff stored_def
        Let_def split: option.splits)
next
  case (UnsafeResolvingSet s)
  show ?case
    by (auto simp: resolving_Contains_def resolving_contains_def range_all_iff stored_def
        Let_def split: option.splits)
next
  case (SafeSet U S)
  then show ?case by (simp add: stored_def)
qed




section \<open>The wrapper's results\<close>

lemma safe_results_wrapped:
  "is_safe (Set_Clone (SafeSet U s))"
  "Set_Diff (SafeSet U s) other = Inr D \<Longrightarrow> is_safe D"
  "Set_SymmetricDiff (SafeSet U s) other = Inr D \<Longrightarrow> is_safe D"
  "Set_Intersect (SafeSet U s) other = Inr D \<Longrightarrow> is_safe D"
  by (cases other; auto simp: Let_def split: sum.splits if_splits)+

text \<open>
  Claim C2 at a failing input. \<^verbatim>\<open>Clone\<close>, \<^verbatim>\<open>Diff\<close>, \<^verbatim>\<open>SymmetricDiff\<close> and
  \<^verbatim>\<open>Intersect\<close> of the wrapper wrap the engine's result (\<open>safe_results_wrapped\<close>), but
  \<^verbatim>\<open>Union\<close> of two synchronized sets returns the bare engine set, and the chained union
  of the README, \<^verbatim>\<open>seta.Union(setb).Union(setc)\<close>, then fails its type assertion.
\<close>

theorem safe_Union_not_wrapped:
  "Set_Union (NewSet [1, 2, 3, 4 :: nat]) (NewSet [2, 3, 4, 5]) =
     Inr (UnsafeSimpleSet [(1, ()), (2, ()), (3, ()), (4, ()), (5, ())] :: (nat, unit) Set_T) \<and>
   \<not> is_safe (UnsafeSimpleSet [(1 :: nat, ()), (2, ()), (3, ()), (4, ()), (5, ())] :: (nat, unit) Set_T) \<and>
   Set_Union (UnsafeSimpleSet [(1, ()), (2, ()), (3, ()), (4, ()), (5, ())]) (NewSet [5, 6 :: nat] :: (nat, unit) Set_T) =
     Inl TypeMismatch"
  by (simp add: NewSet_def simple_Add_def simple_add_def simple_Len_def newUnsafeSimpleSet_def
      simple_Union_def)

section \<open>Type assertions of the binary methods\<close>


lemma same_variant_sym: "same_variant A B = same_variant B A"
  by (induction A B rule: same_variant.induct) auto

lemma mismatch_Diff: "\<not> same_variant A B \<Longrightarrow> Set_Diff A B = Inl TypeMismatch"
  by (induction A B rule: Set_Diff.induct) auto

lemma mismatch_SymmetricDiff: "\<not> same_variant A B \<Longrightarrow> Set_SymmetricDiff A B = Inl TypeMismatch"
  by (induction A B rule: Set_SymmetricDiff.induct) auto

lemma mismatch_Union: "\<not> same_variant A B \<Longrightarrow> Set_Union A B = Inl TypeMismatch"
  by (induction A B rule: Set_Union.induct) auto

lemma mismatch_Intersect: "\<not> same_variant A B \<Longrightarrow> Set_Intersect A B = Inl TypeMismatch"
  by (induction A B rule: Set_Intersect.induct) auto

lemma mismatch_Equal: "\<not> same_variant A B \<Longrightarrow> Set_Equal A B = Inl TypeMismatch"
  by (induction A B rule: Set_Equal.induct) auto

lemma mismatch_IsSubset: "\<not> same_variant A B \<Longrightarrow> Set_IsSubset A B = Inl TypeMismatch"
  by (induction A B rule: Set_IsSubset.induct) auto

lemma mismatch_IsSuperset: "\<not> same_variant A B \<Longrightarrow> Set_IsSuperset A B = Inl TypeMismatch"
  unfolding Set_IsSuperset_def using mismatch_IsSubset [of B A] same_variant_sym [of A B] by simp

lemma IsProperSubset_engine:
  "\<not> is_safe A \<Longrightarrow>
   Set_IsProperSubset A B = (if Set_Len A < Set_Len B then Set_IsSubset A B else Inr False)"
  by (cases A) auto

lemma IsProperSuperset_engine:
  "\<not> is_safe A \<Longrightarrow>
   Set_IsProperSuperset A B = (if Set_Len A > Set_Len B then Set_IsSuperset A B else Inr False)"
  by (cases A) auto

lemma IsProperSubset_safe:
  "is_safe A \<Longrightarrow> \<not> same_wrapper A B \<Longrightarrow> Set_IsProperSubset A B = Inl TypeMismatch"
  by (cases A; cases B) auto

lemma IsProperSuperset_safe:
  "is_safe A \<Longrightarrow> Set_IsProperSuperset A B = Set_IsProperSubset B A"
  by (cases A) auto

lemma same_wrapper_sym: "same_wrapper A B = same_wrapper B A"
  by (cases A; cases B) auto

lemma mismatch_IsProperSubset:
  "\<not> same_variant A B \<Longrightarrow>
   Set_IsProperSubset A B = Inl TypeMismatch \<or> Set_IsProperSubset A B = Inr False"
  by (induction A B rule: Set_IsProperSubset.induct) (auto simp: mismatch_IsSubset)

lemma mismatch_IsProperSuperset:
  "\<not> same_variant A B \<Longrightarrow>
   Set_IsProperSuperset A B = Inl TypeMismatch \<or> Set_IsProperSuperset A B = Inr False"
proof (cases "is_safe A")
  case True
  assume m: "\<not> same_variant A B"
  from m have "\<not> same_variant B A" by (simp add: same_variant_sym)
  then show ?thesis using mismatch_IsProperSubset [of B A] True by (simp add: IsProperSuperset_safe)
next
  case False
  assume m: "\<not> same_variant A B"
  with False show ?thesis by (simp add: IsProperSuperset_engine mismatch_IsSuperset)
qed

lemma match_Diff: "same_variant A B \<Longrightarrow> \<not> isl (Set_Diff A B)"
  by (induction A B rule: Set_Diff.induct) (auto split: sum.splits)

lemma match_SymmetricDiff: "same_variant A B \<Longrightarrow> \<not> isl (Set_SymmetricDiff A B)"
  by (induction A B rule: Set_SymmetricDiff.induct) (auto split: sum.splits)

lemma match_Union: "same_variant A B \<Longrightarrow> \<not> isl (Set_Union A B)"
  by (induction A B rule: Set_Union.induct) (auto split: sum.splits)

lemma match_Intersect: "same_variant A B \<Longrightarrow> \<not> isl (Set_Intersect A B)"
  by (induction A B rule: Set_Intersect.induct) (auto split: sum.splits)

lemma match_Equal: "same_variant A B \<Longrightarrow> \<not> isl (Set_Equal A B)"
  by (induction A B rule: Set_Equal.induct) (auto split: sum.splits)

lemma match_IsSubset: "same_variant A B \<Longrightarrow> \<not> isl (Set_IsSubset A B)"
  by (induction A B rule: Set_IsSubset.induct) (auto split: sum.splits)

lemma match_IsSuperset: "same_variant A B \<Longrightarrow> \<not> isl (Set_IsSuperset A B)"
  unfolding Set_IsSuperset_def using match_IsSubset [of B A] same_variant_sym [of A B] by simp

lemma match_IsProperSubset: "same_variant A B \<Longrightarrow> \<not> isl (Set_IsProperSubset A B)"
  by (induction A B rule: Set_IsProperSubset.induct) (auto simp: match_IsSubset)

lemma match_IsProperSuperset: "same_variant A B \<Longrightarrow> \<not> isl (Set_IsProperSuperset A B)"
proof (cases "is_safe A")
  case True
  assume m: "same_variant A B"
  from m have "same_variant B A" by (simp add: same_variant_sym)
  then show ?thesis using match_IsProperSubset [of B A] True by (simp add: IsProperSuperset_safe)
next
  case False
  assume m: "same_variant A B"
  with False show ?thesis by (simp add: IsProperSuperset_engine match_IsSuperset)
qed

text \<open>
  Claim C9, as the code has it. On operands of different concrete types \<^verbatim>\<open>Diff\<close>,
  \<^verbatim>\<open>SymmetricDiff\<close>, \<^verbatim>\<open>Union\<close>, \<^verbatim>\<open>Intersect\<close>, \<^verbatim>\<open>Equal\<close>, \<^verbatim>\<open>IsSubset\<close> and
  \<^verbatim>\<open>IsSuperset\<close> fail with TypeMismatch, and the two proper tests fail with TypeMismatch
  or return false. The proper tests of an unsynchronized set compare the lengths first:
  they fail exactly when the comparison holds and return false otherwise.
  \<^verbatim>\<open>IsProperSubset\<close> of a synchronized set asserts first: it fails, whatever the
  lengths, when the argument is not a synchronized set with the same type arguments, and
  otherwise it is the test of the two wrapped sets. \<^verbatim>\<open>IsProperSuperset\<close> of a
  synchronized set is \<^verbatim>\<open>IsProperSubset\<close> of the argument on the receiver: it follows the
  length rule of an unsynchronized argument and fails against a synchronized argument
  with other type arguments. On operands of the same concrete type none of the nine
  methods fails.
\<close>

theorem binary_type_assertions:
  "(\<not> same_variant A B \<longrightarrow>
      Set_Diff A B = Inl TypeMismatch \<and>
      Set_SymmetricDiff A B = Inl TypeMismatch \<and>
      Set_Union A B = Inl TypeMismatch \<and>
      Set_Intersect A B = Inl TypeMismatch \<and>
      Set_Equal A B = Inl TypeMismatch \<and>
      Set_IsSubset A B = Inl TypeMismatch \<and>
      Set_IsSuperset A B = Inl TypeMismatch \<and>
      (Set_IsProperSubset A B = Inl TypeMismatch \<or> Set_IsProperSubset A B = Inr False) \<and>
      (Set_IsProperSuperset A B = Inl TypeMismatch \<or> Set_IsProperSuperset A B = Inr False) \<and>
      (\<not> is_safe A \<longrightarrow>
         Set_IsProperSubset A B =
           (if Set_Len A < Set_Len B then Inl TypeMismatch else Inr False) \<and>
         Set_IsProperSuperset A B =
           (if Set_Len A > Set_Len B then Inl TypeMismatch else Inr False)) \<and>
      (is_safe A \<and> \<not> same_wrapper A B \<longrightarrow> Set_IsProperSubset A B = Inl TypeMismatch) \<and>
      (is_safe A \<and> \<not> is_safe B \<longrightarrow>
         Set_IsProperSuperset A B =
           (if Set_Len B < Set_Len A then Inl TypeMismatch else Inr False)) \<and>
      (is_safe A \<and> is_safe B \<and> \<not> same_wrapper A B \<longrightarrow>
         Set_IsProperSuperset A B = Inl TypeMismatch)) \<and>
   Set_IsProperSubset (SafeSet U a) (SafeSet U b) = Set_IsProperSubset a b \<and>
   Set_IsProperSuperset (SafeSet U a) B = Set_IsProperSubset B (SafeSet U a) \<and>
   (same_variant A B \<longrightarrow>
      \<not> isl (Set_Diff A B) \<and>
      \<not> isl (Set_SymmetricDiff A B) \<and>
      \<not> isl (Set_Union A B) \<and>
      \<not> isl (Set_Intersect A B) \<and>
      \<not> isl (Set_Equal A B) \<and>
      \<not> isl (Set_IsSubset A B) \<and>
      \<not> isl (Set_IsSuperset A B) \<and>
      \<not> isl (Set_IsProperSubset A B) \<and>
      \<not> isl (Set_IsProperSuperset A B))"
proof (intro conjI impI)
  assume m: "\<not> same_variant A B"
  show "Set_Diff A B = Inl TypeMismatch" using m by (rule mismatch_Diff)
  show "Set_SymmetricDiff A B = Inl TypeMismatch" using m by (rule mismatch_SymmetricDiff)
  show "Set_Union A B = Inl TypeMismatch" using m by (rule mismatch_Union)
  show "Set_Intersect A B = Inl TypeMismatch" using m by (rule mismatch_Intersect)
  show "Set_Equal A B = Inl TypeMismatch" using m by (rule mismatch_Equal)
  show "Set_IsSubset A B = Inl TypeMismatch" using m by (rule mismatch_IsSubset)
  show "Set_IsSuperset A B = Inl TypeMismatch" using m by (rule mismatch_IsSuperset)
  show "Set_IsProperSubset A B = Inl TypeMismatch \<or> Set_IsProperSubset A B = Inr False"
    using m by (rule mismatch_IsProperSubset)
  show "Set_IsProperSuperset A B = Inl TypeMismatch \<or> Set_IsProperSuperset A B = Inr False"
    using m by (rule mismatch_IsProperSuperset)
  {
    assume e: "\<not> is_safe A"
    show "Set_IsProperSubset A B = (if Set_Len A < Set_Len B then Inl TypeMismatch else Inr False)"
      using m e by (simp add: IsProperSubset_engine mismatch_IsSubset)
    show "Set_IsProperSuperset A B = (if Set_Len A > Set_Len B then Inl TypeMismatch else Inr False)"
      using m e by (simp add: IsProperSuperset_engine mismatch_IsSuperset)
  }
  {
    assume "is_safe A \<and> \<not> same_wrapper A B"
    then show "Set_IsProperSubset A B = Inl TypeMismatch" by (simp add: IsProperSubset_safe)
  }
  {
    assume s: "is_safe A \<and> \<not> is_safe B"
    from m have "\<not> same_variant B A" by (simp add: same_variant_sym)
    then show "Set_IsProperSuperset A B =
        (if Set_Len B < Set_Len A then Inl TypeMismatch else Inr False)"
      using s by (simp add: IsProperSuperset_safe IsProperSubset_engine mismatch_IsSubset)
  }
  {
    assume s: "is_safe A \<and> is_safe B \<and> \<not> same_wrapper A B"
    then have "\<not> same_wrapper B A" by (simp add: same_wrapper_sym)
    then show "Set_IsProperSuperset A B = Inl TypeMismatch"
      using s by (simp add: IsProperSuperset_safe IsProperSubset_safe)
  }
next
  show "Set_IsProperSubset (SafeSet U a) (SafeSet U b) = Set_IsProperSubset a b" by simp
  show "Set_IsProperSuperset (SafeSet U a) B = Set_IsProperSubset B (SafeSet U a)" by simp
next
  assume m: "same_variant A B"
  show "\<not> isl (Set_Diff A B)" using m by (rule match_Diff)
  show "\<not> isl (Set_SymmetricDiff A B)" using m by (rule match_SymmetricDiff)
  show "\<not> isl (Set_Union A B)" using m by (rule match_Union)
  show "\<not> isl (Set_Intersect A B)" using m by (rule match_Intersect)
  show "\<not> isl (Set_Equal A B)" using m by (rule match_Equal)
  show "\<not> isl (Set_IsSubset A B)" using m by (rule match_IsSubset)
  show "\<not> isl (Set_IsSuperset A B)" using m by (rule match_IsSuperset)
  show "\<not> isl (Set_IsProperSubset A B)" using m by (rule match_IsProperSubset)
  show "\<not> isl (Set_IsProperSuperset A B)" using m by (rule match_IsProperSuperset)
qed

theorem binary_type_assertions_witness:
  "\<not> same_variant (NewThreadUnsafeSet [1, 2 :: nat]) (NewSet [1, 2, 3] :: (nat, unit) Set_T) \<and>
   \<not> is_safe (NewThreadUnsafeSet [1, 2 :: nat] :: (nat, unit) Set_T) \<and>
   Set_Len (NewThreadUnsafeSet [1, 2 :: nat] :: (nat, unit) Set_T) <
     Set_Len (NewSet [1, 2, 3 :: nat] :: (nat, unit) Set_T) \<and>
   Set_Diff (NewThreadUnsafeSet [1, 2 :: nat]) (NewSet [1, 2, 3] :: (nat, unit) Set_T) =
     Inl TypeMismatch \<and>
   Set_IsSuperset (NewThreadUnsafeSet [1, 2 :: nat]) (NewSet [1, 2, 3] :: (nat, unit) Set_T) =
     Inl TypeMismatch \<and>
   Set_IsProperSubset (NewThreadUnsafeSet [1, 2 :: nat]) (NewSet [1, 2, 3] :: (nat, unit) Set_T) =
     Inl TypeMismatch \<and>
   \<not> same_variant (NewSet [1, 2, 3 :: nat]) (NewThreadUnsafeSet [1, 2] :: (nat, unit) Set_T) \<and>
   is_safe (NewSet [1, 2, 3 :: nat] :: (nat, unit) Set_T) \<and>
   \<not> same_wrapper (NewSet [1, 2, 3 :: nat]) (NewThreadUnsafeSet [1, 2] :: (nat, unit) Set_T) \<and>
   \<not> Set_Len (NewSet [1, 2, 3 :: nat] :: (nat, unit) Set_T) <
     Set_Len (NewThreadUnsafeSet [1, 2 :: nat] :: (nat, unit) Set_T) \<and>
   Set_IsProperSubset (NewSet [1, 2, 3 :: nat]) (NewThreadUnsafeSet [1, 2] :: (nat, unit) Set_T) =
     Inl TypeMismatch \<and>
   Set_IsProperSuperset (NewSet [1, 2, 3 :: nat]) (NewThreadUnsafeSet [1, 2] :: (nat, unit) Set_T) =
     Inl TypeMismatch \<and>
   \<not> same_variant (NewSet [(1 :: nat, 1 :: nat)])
       (newSafeResolvingSet Key_Type fst None :: (nat \<times> nat, nat) Set_T) \<and>
   \<not> same_wrapper (NewSet [(1 :: nat, 1 :: nat)])
       (newSafeResolvingSet Key_Type fst None :: (nat \<times> nat, nat) Set_T) \<and>
   Set_IsProperSubset (NewSet [(1 :: nat, 1 :: nat)])
       (newSafeResolvingSet Key_Type fst None :: (nat \<times> nat, nat) Set_T) = Inl TypeMismatch \<and>
   Set_IsProperSuperset (NewSet [(1 :: nat, 1 :: nat)])
       (newSafeResolvingSet Key_Type fst None :: (nat \<times> nat, nat) Set_T) = Inl TypeMismatch \<and>
   same_variant (NewSet [2 :: nat]) (NewSet [1, 2, 3] :: (nat, unit) Set_T) \<and>
   \<not> isl (Set_Union (NewSet [2 :: nat]) (NewSet [1, 2, 3] :: (nat, unit) Set_T)) \<and>
   \<not> isl (Set_IsProperSuperset (NewSet [2 :: nat]) (NewSet [1, 2, 3] :: (nat, unit) Set_T))"
proof -
  let ?U = "NewThreadUnsafeSet [1, 2 :: nat] :: (nat, unit) Set_T"
  let ?S = "NewSet [2 :: nat] :: (nat, unit) Set_T"
  let ?T = "NewSet [1, 2, 3 :: nat] :: (nat, unit) Set_T"
  let ?P = "NewSet [(1 :: nat, 1 :: nat)] :: (nat \<times> nat, nat) Set_T"
  let ?R = "newSafeResolvingSet Key_Type fst None :: (nat \<times> nat, nat) Set_T"
  have U: "?U = UnsafeSimpleSet [(1, ()), (2, ())]"
    by (simp add: NewThreadUnsafeSet_def newUnsafeSimpleSet_def simple_Add_def simple_add_def
        simple_Len_def)
  have S: "?S = SafeSet Struct_Empty (UnsafeSimpleSet [(2, ())])"
    by (simp add: NewSet_def newUnsafeSimpleSet_def simple_Add_def simple_add_def simple_Len_def)
  have T: "?T = SafeSet Struct_Empty (UnsafeSimpleSet [(1, ()), (2, ()), (3, ())])"
    by (simp add: NewSet_def newUnsafeSimpleSet_def simple_Add_def simple_add_def simple_Len_def)
  have P: "?P = SafeSet Struct_Empty (UnsafeSimpleSet [((1, 1), ())])"
    by (simp add: NewSet_def newUnsafeSimpleSet_def simple_Add_def simple_add_def simple_Len_def)
  have R: "?R = SafeSet Key_Type (UnsafeResolvingSet
      \<lparr>set_R = [], keyGetter_R = fst, resolver = None\<rparr>)"
    by (simp add: newSafeResolvingSet_def newUnsafeResolvingSet_def)
  have h1: "\<not> same_variant ?U ?T" unfolding U T by simp
  have h2: "\<not> is_safe ?U" unfolding U by simp
  have h3: "Set_Len ?U < Set_Len ?T" unfolding U T by (simp add: simple_Len_def)
  have h4: "same_variant ?S ?T" unfolding S T by simp
  have h5: "\<not> same_variant ?T ?U" unfolding U T by simp
  have h6: "is_safe ?T" unfolding T by simp
  have h7: "\<not> same_wrapper ?T ?U" unfolding U T by simp
  have h8: "\<not> Set_Len ?T < Set_Len ?U" unfolding U T by (simp add: simple_Len_def)
  have h9: "\<not> same_variant ?P ?R" unfolding P R by simp
  have h10: "\<not> same_wrapper ?P ?R" unfolding P R by simp
  have h11: "is_safe ?P" "is_safe ?R" unfolding P R by simp_all
  from binary_type_assertions [of ?U ?T] h1 h2 h3
  have a: "Set_Diff ?U ?T = Inl TypeMismatch" "Set_IsSuperset ?U ?T = Inl TypeMismatch"
    "Set_IsProperSubset ?U ?T = Inl TypeMismatch"
    by simp_all
  from binary_type_assertions [of ?S ?T] h4
  have b: "\<not> isl (Set_Union ?S ?T)" "\<not> isl (Set_IsProperSuperset ?S ?T)"
    by blast+
  from binary_type_assertions [of ?T ?U] h5 h6 h7 h2 h3
  have c: "Set_IsProperSubset ?T ?U = Inl TypeMismatch"
    "Set_IsProperSuperset ?T ?U = Inl TypeMismatch"
    by simp_all
  from binary_type_assertions [of ?P ?R] h9 h10 h11
  have d: "Set_IsProperSubset ?P ?R = Inl TypeMismatch"
    "Set_IsProperSuperset ?P ?R = Inl TypeMismatch"
    by blast+
  from h1 h2 h3 h4 h5 h6 h7 h8 h9 h10 a b c d show ?thesis by blast
qed

text \<open>
  A proper-subset test on operands of different concrete types that does not fail: the
  unsynchronized set has one element, the synchronized set none, the comparison of the
  lengths is false and the type assertion is never reached.
\<close>

theorem IsProperSubset_mismatch_counterexample:
  "\<not> same_variant (NewThreadUnsafeSet [1 :: nat]) (NewSet [] :: (nat, unit) Set_T) \<and>
   Set_IsProperSubset (NewThreadUnsafeSet [1 :: nat]) (NewSet [] :: (nat, unit) Set_T) = Inr False"
  by (simp add: NewSet_def NewThreadUnsafeSet_def simple_Add_def simple_add_def simple_Len_def
      newUnsafeSimpleSet_def)

section \<open>Add\<close>


lemma priority_Add_step_ret:
  "priority_Add_step v (s, r) =
     (fst (priority_Add_step v (s, False)), r \<or> snd (priority_Add_step v (s, False)))"
  by (simp add: priority_Add_step_def Let_def split: option.splits)

lemma priority_fold_ret:
  "fold priority_Add_step vs (s, r) =
     (fst (fold priority_Add_step vs (s, False)), r \<or> snd (fold priority_Add_step vs (s, False)))"
proof (induction vs arbitrary: s r)
  case Nil
  show ?case by simp
next
  case (Cons v vs)
  obtain s1 r1 where st: "priority_Add_step v (s, False) = (s1, r1)" by (cases "priority_Add_step v (s, False)")
  have a: "priority_Add_step v (s, r) = (s1, r \<or> r1)"
    using priority_Add_step_ret [of v s r] st by simp
  show ?case
    using Cons.IH [of s1 "r \<or> r1"] Cons.IH [of s1 r1] by (auto simp: a st)
qed

lemma priority_Add_Nil: "priority_Add s [] = (s, False)"
  by (simp add: priority_Add_def)

lemma priority_Add_Cons:
  "priority_Add s (v # vs) =
     (fst (priority_Add (fst (priority_Add s [v])) vs),
      snd (priority_Add s [v]) \<or> snd (priority_Add (fst (priority_Add s [v])) vs))"
proof -
  obtain s1 r1 where st: "priority_Add_step v (s, False) = (s1, r1)" by (cases "priority_Add_step v (s, False)")
  show ?thesis
    using priority_fold_ret [of vs s1 r1] by (simp add: priority_Add_def st)
qed

lemma resolving_Add_step_ret:
  "resolving_Add_step v (s, r) =
     (fst (resolving_Add_step v (s, False)), r \<or> snd (resolving_Add_step v (s, False)))"
  by (simp add: resolving_Add_step_def Let_def split: option.splits prod.splits)

lemma resolving_fold_ret:
  "fold resolving_Add_step vs (s, r) =
     (fst (fold resolving_Add_step vs (s, False)), r \<or> snd (fold resolving_Add_step vs (s, False)))"
proof (induction vs arbitrary: s r)
  case Nil
  show ?case by simp
next
  case (Cons v vs)
  obtain s1 r1 where st: "resolving_Add_step v (s, False) = (s1, r1)" by (cases "resolving_Add_step v (s, False)")
  have a: "resolving_Add_step v (s, r) = (s1, r \<or> r1)"
    using resolving_Add_step_ret [of v s r] st by simp
  show ?case
    using Cons.IH [of s1 "r \<or> r1"] Cons.IH [of s1 r1] by (auto simp: a st)
qed

lemma resolving_Add_Nil: "resolving_Add s [] = (s, False)"
  by (simp add: resolving_Add_def)

lemma resolving_Add_Cons:
  "resolving_Add s (v # vs) =
     (fst (resolving_Add (fst (resolving_Add s [v])) vs),
      snd (resolving_Add s [v]) \<or> snd (resolving_Add (fst (resolving_Add s [v])) vs))"
proof -
  obtain s1 r1 where st: "resolving_Add_step v (s, False) = (s1, r1)" by (cases "resolving_Add_step v (s, False)")
  show ?thesis
    using resolving_fold_ret [of vs s1 r1] by (simp add: resolving_Add_def st)
qed

lemma length_update_if:
  "length (AList.update k v m) = (if k \<in> fst ` set m then length m else Suc (length m))"
  by (induction m) auto

lemma length_simple_add: "length s \<le> length (simple_add s vs)"
proof (induction vs arbitrary: s)
  case Nil
  show ?case by (simp add: simple_add_def)
next
  case (Cons v vs)
  have "length s \<le> length (AList.update v () s)" by (simp add: length_update_if)
  also have "\<dots> \<le> length (simple_add (AList.update v () s) vs)" by (rule Cons.IH)
  finally show ?case by (simp add: simple_add_def)
qed

lemma simple_Add_Nil: "simple_Add s [] = (s, False)"
  by (simp add: simple_Add_def simple_add_def)

lemma simple_Add_Cons:
  "simple_Add s (v # vs) =
     (fst (simple_Add (fst (simple_Add s [v])) vs),
      snd (simple_Add s [v]) \<or> snd (simple_Add (fst (simple_Add s [v])) vs))"
proof -
  let ?s1 = "AList.update v () s"
  have a: "length s \<le> length ?s1" by (simp add: length_update_if)
  have b: "length ?s1 \<le> length (simple_add ?s1 vs)" by (rule length_simple_add)
  have c: "simple_add s (v # vs) = simple_add ?s1 vs" by (simp add: simple_add_def)
  have d: "simple_add s [v] = ?s1" by (simp add: simple_add_def)
  from a b show ?thesis
    by (auto simp: simple_Add_def Let_def simple_Len_def c d)
qed

lemma Set_Add_Nil: "Set_Add S [] = (S, False)"
  by (induction S) (simp_all add: simple_Add_Nil priority_Add_Nil resolving_Add_Nil)

lemma Set_Add_Cons:
  "Set_Add S (v # vs) =
     (fst (Set_Add (fst (Set_Add S [v])) vs),
      snd (Set_Add S [v]) \<or> snd (Set_Add (fst (Set_Add S [v])) vs))"
proof (induction S)
  case (UnsafeSimpleSet s)
  show ?case using simple_Add_Cons [of s v vs] by (simp add: split_beta)
next
  case (UnsafePrioritySet s)
  show ?case using priority_Add_Cons [of s v vs] by (simp add: split_beta)
next
  case (UnsafeResolvingSet s)
  show ?case using resolving_Add_Cons [of s v vs] by (simp add: split_beta)
next
  case (SafeSet U S)
  then show ?case by (simp add: split_beta)
qed

lemma update_unit_present: "k \<in> fst ` set m \<Longrightarrow> AList.update k () m = m"
  by (induction m) auto

lemma Set_Add_single: "Set_Add S [v] = spec_add1 S v"
proof (induction S)
  case (UnsafeSimpleSet s)
  show ?case
    by (auto simp: spec_add1_def stored_def map_of_simple_entries simple_Add_def simple_add_def
        simple_Len_def length_update_if update_unit_present)
next
  case (UnsafePrioritySet s)
  show ?case
    by (auto simp: spec_add1_def stored_def priority_Add_def priority_Add_step_def Let_def
        split: option.splits)
next
  case (UnsafeResolvingSet s)
  show ?case
    by (auto simp: spec_add1_def stored_def resolving_Add_def resolving_Add_step_def Let_def
        split: option.splits prod.splits)
next
  case (SafeSet U S)
  then show ?case
    by (auto simp: spec_add1_def stored_def Let_def split: option.splits prod.splits)
qed






section \<open>Keyed sets without resolution function\<close>



lemma keyed_entries_update:
  "map (\<lambda>(k, e). (Inr k, e)) (AList.update k e m) =
     AList.update (Inr k) e (map (\<lambda>(k, e). (Inr k, e)) m)"
  by (induction m) auto

lemma stored_SafeSet [simp]: "stored (SafeSet U S) = stored S"
  by (simp add: fun_eq_iff stored_def)


lemma keyOf_put [simp]: "keyOf (put S v e) = keyOf S"
  by (induction S) (auto simp: fun_eq_iff)

lemma nil_keyed_put [simp]: "nil_keyed (put S v e) = nil_keyed S"
  by (induction S) auto

lemma resolution_of_put [simp]: "resolution_of (put S v e) = resolution_of S"
  by (induction S) auto








section \<open>Collisions in a resolving set\<close>





section \<open>The loop that fills a result set\<close>


lemma Set_Len_entries: "Set_Len S = length (entries S)"
  by (induction S) (simp_all add: simple_Len_def priority_Len_def resolving_Len_def)

lemma entries_put_keyed_P:
  "entries (put (UnsafePrioritySet s) v e) =
     AList.update (keyOf (UnsafePrioritySet s) v) e (entries (UnsafePrioritySet s))"
  by (simp add: keyed_entries_update)

lemma entries_put_keyed_R:
  "entries (put (UnsafeResolvingSet s) v e) =
     AList.update (keyOf (UnsafeResolvingSet s) v) e (entries (UnsafeResolvingSet s))"
  by (simp add: keyed_entries_update)

lemma simple_entries_update:
  "map (\<lambda>(k, _). (Inl k, k)) (AList.update v () s) =
     AList.update (Inl v) v (map (\<lambda>(k, _). (Inl k, k)) s)"
  by (induction s) auto

lemma entries_put_self: "entries (put S v v) = AList.update (keyOf S v) v (entries S)"
  by (induction S) (simp_all add: keyed_entries_update simple_entries_update)



lemma set_update_subset: "set (AList.update k e m) \<subseteq> insert (k, e) (set m)"
  by (induction m) auto

lemma keyed_put_self: "keyed S \<Longrightarrow> keyed (put S v v)"
  using set_update_subset [of "keyOf S v" v "entries S"]
  by (auto simp: keyed_def list_all_iff entries_put_self)

lemma comparator_of_put [simp]: "comparator_of (put S v e) = comparator_of S"
  by (induction S) auto

lemma same_variant_refl [simp]: "same_variant S S"
  by (induction S) auto

lemma same_variant_put [simp]: "same_variant (put S v e) T = same_variant S T"
  by (induction S T rule: same_variant.induct) auto



lemma add_each_where_Nil [simp]: "add_each_where p [] S = S"
  by (simp add: add_each_where_def)








section \<open>The binary methods as loops over the interface\<close>



lemma keyOf_SafeSet [simp]: "keyOf (SafeSet U S) = keyOf S"
  by (simp add: fun_eq_iff)

lemma keys_SafeSet [simp]: "keys (SafeSet U S) = keys S"
  by (simp add: keys_def)

lemma elems_SafeSet [simp]: "elems (SafeSet U S) = elems S"
  by (simp add: elems_def)

lemma keyed_SafeSet [simp]: "keyed (SafeSet U S) = keyed S"
  by (simp add: keyed_def)

lemma distinct_keys_SafeSet [simp]: "distinct_keys (SafeSet U S) = distinct_keys S"
  by (simp add: distinct_keys_def)

lemma accepts_SafeSet [simp]: "accepts (SafeSet U S) = accepts S"
  by (simp add: fun_eq_iff accepts_def)

lemma Contains_single:
  "Set_Contains S [e] \<longleftrightarrow>
     (case stored S (keyOf S e) of None \<Rightarrow> False | Some e' \<Rightarrow> accepts S e' e)"
  by (auto simp: Contains_stored accepts_def split: option.splits)







lemma elems_simple: "elems (UnsafeSimpleSet s) = map fst s"
  by (simp add: elems_def split_beta)

lemma elems_priority: "elems (UnsafePrioritySet s) = map snd (set_P s)"
  by (simp add: elems_def split_beta)

lemma elems_resolving: "elems (UnsafeResolvingSet s) = map snd (set_R s)"
  by (simp add: elems_def split_beta)









section \<open>What the results of the binary methods hold\<close>


lemma stored_fresh_like [simp]: "stored (fresh_like S) k = None"
  by (induction S)
    (simp_all add: stored_def newUnsafeSimpleSet_def newUnsafePrioritySet_def
      newUnsafeResolvingSet_def)


lemma comparator_of_fresh_like [simp]: "comparator_of (fresh_like S) = comparator_of S"
  by (induction S) (simp_all add: newUnsafePrioritySet_def)

lemma same_variant_fresh_like [simp]: "same_variant (fresh_like S) T = same_variant S T"
  by (induction S T rule: same_variant.induct) auto

lemma entries_fresh_like [simp]: "entries (fresh_like S) = []"
  by (induction S)
    (simp_all add: newUnsafeSimpleSet_def newUnsafePrioritySet_def newUnsafeResolvingSet_def)

lemma distinct_keys_fresh_like [simp]: "distinct_keys (fresh_like S)"
  by (simp add: distinct_keys_def)

lemma keyed_fresh_like [simp]: "keyed (fresh_like S)"
  by (simp add: keyed_def)










section \<open>Pop\<close>


lemma Set_Pop_eq:
  "Set_Pop eqT eqU zeroElem S =
     (case elems S of
        [] \<Rightarrow> ((zeroElem, False), S)
      | e # _ \<Rightarrow> ((e, True), Set_Remove eqT eqU S [e]))"
proof (induction S)
  case (UnsafeSimpleSet s)
  show ?case by (simp add: simple_Pop_def elems_simple split: list.splits)
next
  case (UnsafePrioritySet s)
  show ?case by (simp add: priority_Pop_def elems_priority split: list.splits)
next
  case (UnsafeResolvingSet s)
  show ?case by (simp add: resolving_Pop_def elems_resolving split: list.splits)
next
  case (SafeSet U S)
  then show ?case by (simp split: list.splits)
qed

lemma keyed_entries_delete:
  "map (\<lambda>(k, e). (Inr k, e)) (AList.delete k m) =
     AList.delete (Inr k) (map (\<lambda>(k, e). (Inr k, e)) m)"
  by (induction m) auto

lemma simple_entries_delete:
  "map (\<lambda>(k, _). (Inl k, k)) (AList.delete v s) =
     AList.delete (Inl v) (map (\<lambda>(k, _). (Inl k, k)) s)"
  by (induction s) auto

lemma entries_Remove_single:
  "entries (Set_Remove eqT eqU S [e]) =
     (if key_eq_self eqT eqU (keyOf S e) then AList.delete (keyOf S e) (entries S)
      else entries S)"
  by (induction S)
    (simp_all add: simple_Remove_def priority_Remove_def resolving_Remove_def go_delete_def
      keyed_entries_delete simple_entries_delete)

lemma keyOf_Remove [simp]: "keyOf (Set_Remove eqT eqU S v) = keyOf S"
proof (induction S)
  case (UnsafePrioritySet s)
  have "keyGetter_P (fold (\<lambda>val s. let key = keyGetter_P s val in s\<lparr>set_P := go_delete eqU key (set_P s)\<rparr>) v s) = keyGetter_P s"
    by (induction v arbitrary: s) simp_all
  then show ?case by (simp add: fun_eq_iff priority_Remove_def)
next
  case (UnsafeResolvingSet s)
  have "keyGetter_R (fold (\<lambda>val s. let key = keyGetter_R s val in s\<lparr>set_R := go_delete eqU key (set_R s)\<rparr>) v s) = keyGetter_R s"
    by (induction v arbitrary: s) simp_all
  then show ?case by (simp add: fun_eq_iff resolving_Remove_def)
qed (simp_all add: fun_eq_iff)

text \<open>\<^verbatim>\<open>Pop\<close> on an empty set returns the zero element and leaves the set as it is.\<close>

lemma Pop_empty: "Set_Len S = 0 \<Longrightarrow> Set_Pop eqT eqU zeroElem S = ((zeroElem, False), S)"
  by (simp add: Set_Pop_eq Set_Len_entries elems_def)

text \<open>
  On a non-empty set it returns a stored element and calls \<^verbatim>\<open>Remove\<close> on it; if the key
  derived from that element is equal to itself, the key is absent afterwards.
\<close>

lemma Pop_nonempty:
  assumes "Set_Len S \<noteq> 0"
  shows "\<exists>e. Set_Pop eqT eqU zeroElem S = ((e, True), Set_Remove eqT eqU S [e]) \<and>
           e \<in> set (elems S) \<and>
           (key_eq_self eqT eqU (keyOf S e) \<longrightarrow>
              \<not> key_present (Set_Remove eqT eqU S [e]) e \<and>
              \<not> Set_Contains (Set_Remove eqT eqU S [e]) [e])"
proof -
  from assms obtain e es where el: "elems S = e # es"
    by (cases "elems S") (auto simp: Set_Len_entries elems_def)
  {
    assume q: "key_eq_self eqT eqU (keyOf S e)"
    have kp: "\<not> key_present (Set_Remove eqT eqU S [e]) e"
      using q by (simp add: key_present_def keys_def entries_Remove_single delete_notin_dom)
    then have "stored (Set_Remove eqT eqU S [e]) (keyOf (Set_Remove eqT eqU S [e]) e) = None"
      by (simp add: key_present_def keys_iff_stored)
    then have nc: "\<not> Set_Contains (Set_Remove eqT eqU S [e]) [e]"
      by (simp add: Contains_single)
    note kp nc
  }
  then show ?thesis using el by (auto simp: Set_Pop_eq)
qed

text \<open>
  When every stored element is filed under the key derived from it and every key is equal
  to itself, exactly the entry of the returned element goes and \<^verbatim>\<open>Len\<close> drops by 1.
\<close>

lemma Pop_nonempty_keyed:
  assumes "Set_Len S \<noteq> 0" and "keyed S" and "distinct_keys S"
    and "\<forall>k\<in>keys S. key_eq_self eqT eqU k"
  shows "\<exists>e. Set_Pop eqT eqU zeroElem S = ((e, True), Set_Remove eqT eqU S [e]) \<and>
           Suc (Set_Len (Set_Remove eqT eqU S [e])) = Set_Len S \<and>
           stored (Set_Remove eqT eqU S [e]) = (stored S)(keyOf S e := None)"
proof -
  from assms(1) obtain x xs where en: "entries S = x # xs"
    by (cases "entries S") (auto simp: Set_Len_entries)
  obtain k e where x: "x = (k, e)" by (cases x)
  have ke: "keyOf S e = k" using assms(2) by (simp add: keyed_def en x)
  have nk: "k \<notin> fst ` set xs" using assms(3) by (simp add: distinct_keys_def en x)
  have q: "key_eq_self eqT eqU k" using assms(4) by (simp add: keys_def en x)
  have d: "entries (Set_Remove eqT eqU S [e]) = xs"
    using nk q by (simp add: entries_Remove_single ke en x)
  have st: "stored (Set_Remove eqT eqU S [e]) = (stored S)(keyOf S e := None)"
    using q by (simp add: fun_eq_iff stored_def entries_Remove_single delete_conv' ke)
  show ?thesis
    using d st by (auto simp: Set_Pop_eq elems_def en x Set_Len_entries)
qed

text \<open>
  Claim C8 at two failing inputs. The interface documents \<^verbatim>\<open>Pop\<close> as
  "removes and returns an arbitrary item from the set". Every \<^verbatim>\<open>Pop\<close> takes the first
  element \<open>elem\<close> of the \<^verbatim>\<open>range\<close> loop, calls \<^verbatim>\<open>s.Remove(elem)\<close> and returns
  \<open>elem\<close> with \<open>found = true\<close>; \<^verbatim>\<open>Remove\<close> deletes the key derived from \<open>elem\<close>,
  not the entry the loop stands on.

  First input: a resolving set with key \<open>ID\<close> and a resolver that answers with an
  element of another ID, after \<^verbatim>\<open>Add\<close> of \<open>(1, 1)\<close> and \<open>(1, 2)\<close>. It holds the single
  element \<open>(9, 2)\<close> under the key 1. \<^verbatim>\<open>Pop\<close> returns \<open>(9, 2)\<close> with \<open>found = true\<close>,
  deletes the key 9, and the set is what it was: \<^verbatim>\<open>Len\<close> is still 1 and \<open>(9, 2)\<close> is
  still stored.

  Second input: an unsynchronized simple set of \<^verbatim>\<open>float64\<close> built from one NaN.
  \<^verbatim>\<open>Pop\<close> returns NaN with \<open>found = true\<close>, \<^verbatim>\<open>delete\<close> finds no key equal to NaN, and
  the set is what it was.

  Both sets have one element, so the order of the \<^verbatim>\<open>range\<close> loop plays no part.
  On an empty set \<^verbatim>\<open>Pop\<close> does what the claim says (\<open>Pop_empty\<close>), and so it does on a
  non-empty set whose elements are filed under their own keys, all equal to themselves
  (\<open>Pop_nonempty\<close>, \<open>Pop_nonempty_keyed\<close>).
\<close>

theorem Pop_keeps_returned_element:
  "Set_Len (fst (Set_Add (newSafeResolvingSet Key_Type fst (Some rekeying_resolver))
      [(1, 1), (1, 2)])) = 1 \<and>
   elems (fst (Set_Add (newSafeResolvingSet Key_Type fst (Some rekeying_resolver))
      [(1, 1), (1, 2)])) = [(9, 2)] \<and>
   Set_Pop pair_eq_self int_eq_self (0, 0)
     (fst (Set_Add (newSafeResolvingSet Key_Type fst (Some rekeying_resolver)) [(1, 1), (1, 2)])) =
     (((9, 2), True),
      fst (Set_Add (newSafeResolvingSet Key_Type fst (Some rekeying_resolver)) [(1, 1), (1, 2)])) \<and>
   Set_Len (NewThreadUnsafeSet [NaN] :: (float64, unit) Set_T) = 1 \<and>
   Set_Pop float64_eq_self (\<lambda>_. True) (Num 0) (NewThreadUnsafeSet [NaN] :: (float64, unit) Set_T) =
     ((NaN, True), NewThreadUnsafeSet [NaN])"
  by (simp add: newSafeResolvingSet_def newUnsafeResolvingSet_def resolving_Add_def
      resolving_Add_step_def rekeying_resolver_def resolving_Pop_def resolving_Remove_def
      resolving_Len_def elems_def go_delete_def int_eq_self_def pair_eq_self_def
      NewThreadUnsafeSet_def newUnsafeSimpleSet_def simple_Add_def simple_add_def
      simple_Len_def simple_Pop_def simple_Remove_def)

section \<open>Equal\<close>









section \<open>Intersect\<close>








section \<open>Diff, SymmetricDiff and Union\<close>








section \<open>The conditions on a set are kept by Add\<close>


text \<open>
  The two conditions on a set that the theorems above assume hold for every set fresh
  from a constructor, and \<^verbatim>\<open>Add\<close> keeps them: the keys stay distinct, and the elements
  stay filed under their own keys as long as the resolution function returns an element
  with the key of the colliding one. A comparator always does: it stores the incoming
  element itself.
\<close>

lemma distinct_keys_put: "distinct_keys S \<Longrightarrow> distinct_keys (put S v e)"
  by (induction S)
    (simp_all add: distinct_keys_def keyed_entries_update simple_entries_update distinct_update)

lemma keyed_put:
  assumes "keyed S" and "keyOf S e = keyOf S v"
  shows "keyed (put S v e)"
  using assms
proof (induction S)
  case (UnsafeSimpleSet s)
  then show ?case using keyed_put_self [of "UnsafeSimpleSet s" v] by simp
next
  case (UnsafePrioritySet s)
  then show ?case
    using set_update_subset [of "Inr (keyGetter_P s v)" e "entries (UnsafePrioritySet s)"]
    by (auto simp: keyed_def list_all_iff keyed_entries_update)
next
  case (UnsafeResolvingSet s)
  then show ?case
    using set_update_subset [of "Inr (keyGetter_R s v)" e "entries (UnsafeResolvingSet s)"]
    by (auto simp: keyed_def list_all_iff keyed_entries_update)
next
  case (SafeSet U S)
  then show ?case by simp
qed

lemma distinct_keys_Add: "distinct_keys S \<Longrightarrow> distinct_keys (fst (Set_Add S vs))"
proof (induction vs arbitrary: S)
  case Nil
  then show ?case by (simp add: Set_Add_Nil)
next
  case (Cons v vs)
  have "distinct_keys (fst (Set_Add S [v]))"
    using Cons.prems
    by (auto simp: Set_Add_single spec_add1_def distinct_keys_put split: option.splits prod.splits)
  then show ?case using Cons.IH Set_Add_Cons [of S v vs] by simp
qed

lemma keyed_Add:
  assumes "keyed S"
    and "\<And>res foundItem newItem.
           resolution_of S = Some res \<Longrightarrow> keyOf S (fst (res foundItem newItem)) = keyOf S newItem"
  shows "keyed (fst (Set_Add S vs))"
  using assms
proof (induction vs arbitrary: S)
  case Nil
  then show ?case by (simp add: Set_Add_Nil)
next
  case (Cons v vs)
  let ?S1 = "fst (Set_Add S [v])"
  have k1: "keyed ?S1"
    using Cons.prems(1) Cons.prems(2) [of _ _ v]
    by (auto simp: Set_Add_single spec_add1_def keyed_put_self keyed_put split: option.splits prod.splits)
      (metis fst_conv keyed_put)
  have r1: "resolution_of ?S1 = resolution_of S" and o1: "keyOf ?S1 = keyOf S"
    by (auto simp: Set_Add_single spec_add1_def split: option.splits prod.splits)
  have "keyed (fst (Set_Add ?S1 vs))"
    using Cons.IH [OF k1] Cons.prems(2) by (simp add: r1 o1)
  then show ?case using Set_Add_Cons [of S v vs] by simp
qed

lemma keyed_Add_priority:
  assumes "keyed (UnsafePrioritySet s)"
  shows "keyed (fst (Set_Add (UnsafePrioritySet s) vs))"
  using assms by (rule keyed_Add) auto

lemma keyed_Add_simple: "keyed (fst (Set_Add (UnsafeSimpleSet s) vs))"
proof (rule keyed_Add)
  show "keyed (UnsafeSimpleSet s)" by (auto simp: keyed_def list_all_iff)
qed simp

end
